theory Spec2Isabelle
  imports Main "HOL-Library.Word"
begin

section \<open>Collaborators of \<^verbatim>\<open>core/query.cc\<close>\<close>

text \<open>
  \<^verbatim>\<open>query.cc\<close> works on resource paths, field paths, ordering clauses, bounds, filters,
  documents and targets, all of them declared in headers of the Firestore pod that sit
  beside it. What follows gives each of them the shape that \<^verbatim>\<open>query.cc\<close> reads.
\<close>

subsection \<open>Paths\<close>

type_synonym resource_path = "string list"

type_synonym field_path = "string list"

text \<open>
  Modelled from the spec: \<^verbatim>\<open>FieldPath::KeyFieldPath\<close> (model/field\_path.h), the field
  path that denotes the document key. The spec calls it the key field and gives it no
  spelling; the one segment chosen here is the reserved name of that field.
\<close>

definition KeyFieldPath :: field_path where
  "KeyFieldPath = [''__name__'']"

text \<open>
  Modelled from the spec: \<^verbatim>\<open>FieldPath::IsKeyFieldPath\<close> (model/field\_path.h), "is the
  key field".
\<close>

definition IsKeyFieldPath :: "field_path \<Rightarrow> bool" where
  "IsKeyFieldPath p = (p = KeyFieldPath)"

text \<open>
  Modelled from the spec: \<^verbatim>\<open>DocumentKey::IsDocumentKey\<close> (model/document\_key.h). The spec:
  a path denotes a document when it has an odd path-segment count under the domain's
  addressing scheme.
\<close>

definition IsDocumentKey :: "resource_path \<Rightarrow> bool" where
  "IsDocumentKey p = odd (length p)"

text \<open>
  Modelled from the spec: \<^verbatim>\<open>ResourcePath::IsPrefixOf\<close> (model/base\_path.h), "its path
  must have \<^verbatim>\<open>path\<close> as a prefix". The loop compares segment by segment.
\<close>

fun IsPrefixOf :: "resource_path \<Rightarrow> resource_path \<Rightarrow> bool" where
  "IsPrefixOf [] other = True"
| "IsPrefixOf (s # ss) [] = False"
| "IsPrefixOf (s # ss) (t # ts) = (if s = t then IsPrefixOf ss ts else False)"

text \<open>
  Modelled from the spec: \<^verbatim>\<open>ResourcePath::IsImmediateParentOf\<close> (model/base\_path.h),
  "\<^verbatim>\<open>path\<close> must be the immediate parent of the document's path": one segment shorter,
  and a prefix.
\<close>

definition IsImmediateParentOf :: "resource_path \<Rightarrow> resource_path \<Rightarrow> bool" where
  "IsImmediateParentOf p other = (length p + 1 = length other \<and> IsPrefixOf p other)"

text \<open>
  Modelled from the spec: \<^verbatim>\<open>DocumentKey::HasCollectionGroup\<close> (model/document\_key.h),
  "the document's key must belong to a collection with that id": the segment before the
  document's own id is the collection id.
\<close>

definition HasCollectionGroup :: "resource_path \<Rightarrow> string \<Rightarrow> bool" where
  "HasCollectionGroup doc_path collection_group =
     (2 \<le> length doc_path \<and> doc_path ! (length doc_path - 2) = collection_group)"

subsection \<open>Values, documents, ordering clauses, bounds\<close>

text \<open>
  Modelled from the spec: the values of fields and of cursor positions ("ordered sequence
  of values"). \<^verbatim>\<open>query.cc\<close> never looks into one: it asks whether a document has a value
  at a field path, and hands bound positions on. Four kinds of value stand for them.
\<close>

datatype field_value =
    NullValue
  | BooleanValue bool
  | IntegerValue int
  | StringValue string

text \<open>
  Modelled from the spec (section 6): \<^verbatim>\<open>Document\<close> (model/document.h) offers its key,
  whether it exists, and \<^verbatim>\<open>fieldValue(path) -> optional Value\<close>.
\<close>

record document =
  key_path :: resource_path
  is_found_document :: bool
  doc_field :: "field_path \<Rightarrow> field_value option"

text \<open>
  Modelled from the spec (section 3): \<^verbatim>\<open>Direction\<close> and \<^verbatim>\<open>OrderBy\<close> (core/direction.h,
  core/order\_by.h), an ordering clause of a field and a direction.
\<close>

datatype Direction = Ascending | Descending

datatype order_by = OrderBy (field: field_path) (direction: Direction)

text \<open>
  Modelled from the spec (section 3): \<^verbatim>\<open>Bound\<close> (core/bound.h), a position and an
  inclusive flag, "constructible from a position + inclusive flag" by
  \<^verbatim>\<open>Bound::FromValue\<close>.
\<close>

datatype bound = Bound (position: "field_value list") (inclusive: bool)

definition FromValue :: "field_value list \<Rightarrow> bool \<Rightarrow> bound" where
  "FromValue pos incl = Bound pos incl"

text \<open>
  Modelled from the spec (section 6): \<^verbatim>\<open>util::ComparisonResult\<close> (util/comparison.h), the
  three outcomes less, equal and greater of a comparator; \<^verbatim>\<open>util::Same\<close> tests for the
  middle one.
\<close>

datatype ComparisonResult = Ascending_cr | Same | Descending_cr

subsection \<open>Filters\<close>

text \<open>
  Modelled from the spec (section 3): \<^verbatim>\<open>Filter\<close> (core/filter.h) is polymorphic, and
  \<^verbatim>\<open>query.cc\<close> reaches it only through its methods. A filter is the record of the two
  that the operations below call: \<^verbatim>\<open>GetFirstInequalityField()\<close>, the first field that
  the filter constrains by an inequality (absent when there is none), and
  \<^verbatim>\<open>Matches(doc)\<close>.
\<close>

record core_filter =
  GetFirstInequalityField :: "field_path option"
  filter_Matches :: "document \<Rightarrow> bool"

subsection \<open>Targets\<close>

text \<open>
  Modelled from the spec (section 3): \<^verbatim>\<open>Target\<close> (core/target.h) holds path, collection
  group, filters, order-bys, limit and the two cursors; two targets are equal iff all
  fields are equal, which is equality of this record.
\<close>

record target =
  t_path :: resource_path
  t_collection_group :: "string option"
  t_filters :: "core_filter list"
  t_order_bys :: "order_by list"
  t_limit :: "32 word"
  t_start_at :: "bound option"
  t_end_at :: "bound option"

section \<open>The query\<close>

text \<open>
  Modelled from the spec (section 3): \<^verbatim>\<open>LimitType\<close> (core/query.h), with
  \<^verbatim>\<open>LimitType::None\<close> written \<open>None_lt\<close>.
\<close>

datatype LimitType = None_lt | First | Last

text \<open>
  The fields of \<^verbatim>\<open>Query\<close> that its constructor takes. The three memo cells
  (\<^verbatim>\<open>memoized_normalized_order_bys_\<close>, \<^verbatim>\<open>memoized_target\<close>,
  \<^verbatim>\<open>memoized_aggregate_target\<close>) are written only by the accessor that reads them, with
  the value computed from these fields, and every builder returns a query whose cells
  are empty; the accessors below are that computation.
\<close>

record query =
  path :: resource_path
  collection_group :: "string option"
  filters :: "core_filter list"
  explicit_order_bys :: "order_by list"
  limit :: "32 word"
  limit_type :: LimitType
  start_at :: "bound option"
  end_at :: "bound option"

text \<open>Every \<^verbatim>\<open>HARD_ASSERT\<close> and \<^verbatim>\<open>HARD_FAIL\<close> of the file, one constructor each.\<close>

datatype error =
    FirstOrderByShouldMatchInequality
      \<comment> \<open>normalized\_order\_bys: "First orderBy %s should match inequality field %s."\<close>
  | LimitNotSet
      \<comment> \<open>limit: "Called limit() when no limit was set"\<close>
  | NoFilterForDocumentQuery
      \<comment> \<open>AddingFilter: "No filter is allowed for document query"\<close>
  | OnlyOneInequalityField
      \<comment> \<open>AddingFilter: "Query must only have one inequality field."\<close>
  | FilterFirstOrderByMustMatch
      \<comment> \<open>AddingFilter: "First orderBy must match inequality field"\<close>
  | NoOrderingForDocumentQuery
      \<comment> \<open>AddingOrderBy: "No ordering is allowed for document query"\<close>
  | OrderByMustMatchInequality
      \<comment> \<open>AddingOrderBy: "First OrderBy must match inequality field."\<close>
  | ComparatorNeedsKeyOrdering
      \<comment> \<open>Comparator: "QueryComparator needs to have a key ordering: %s"\<close>

subsection \<open>Accessors\<close>

definition IsDocumentQuery :: "query \<Rightarrow> bool" where
  "IsDocumentQuery q =
     (IsDocumentKey (path q) \<and> collection_group q = None \<and> filters q = [])"

text \<open>The loop of \<^verbatim>\<open>InequalityFilterField\<close>: the first filter that has one decides.\<close>

fun first_inequality :: "core_filter list \<Rightarrow> field_path option" where
  "first_inequality [] = None"
| "first_inequality (f # fs) =
     (case GetFirstInequalityField f of
        Some found \<Rightarrow> Some found
      | None \<Rightarrow> first_inequality fs)"

definition InequalityFilterField :: "query \<Rightarrow> field_path option" where
  "InequalityFilterField q = first_inequality (filters q)"

definition FirstOrderByField :: "query \<Rightarrow> field_path option" where
  "FirstOrderByField q =
     (case explicit_order_bys q of [] \<Rightarrow> None | ob # _ \<Rightarrow> Some (field ob))"

text \<open>The loop that sets \<^verbatim>\<open>found_explicit_key_order\<close>, leaving at the first hit.\<close>

fun found_explicit_key_order :: "order_by list \<Rightarrow> bool" where
  "found_explicit_key_order [] = False"
| "found_explicit_key_order (ob # obs) =
     (if IsKeyFieldPath (field ob) then True else found_explicit_key_order obs)"

definition normalized_order_bys :: "query \<Rightarrow> error + order_by list" where
  "normalized_order_bys q =
     (case (InequalityFilterField q, FirstOrderByField q) of
        (Some inequality_field, None) \<Rightarrow>
          if IsKeyFieldPath inequality_field
          then Inr [OrderBy KeyFieldPath Ascending]
          else Inr [OrderBy inequality_field Ascending, OrderBy KeyFieldPath Ascending]
      | (inequality_opt, first_order_by_opt) \<Rightarrow>
          if \<not> (inequality_opt = None \<or> inequality_opt = first_order_by_opt)
          then Inl FirstOrderByShouldMatchInequality
          else
            if \<not> found_explicit_key_order (explicit_order_bys q)
            then
              let last_direction =
                    (if explicit_order_bys q = [] then Ascending
                     else direction (last (explicit_order_bys q)))
              in Inr (explicit_order_bys q @ [OrderBy KeyFieldPath last_direction])
            else Inr (explicit_order_bys q))"

definition limit_of :: "query \<Rightarrow> error + 32 word" where
  "limit_of q = (if limit_type q \<noteq> None_lt then Inr (limit q) else Inl LimitNotSet)"

subsection \<open>Builder methods\<close>

definition AddingFilter :: "query \<Rightarrow> core_filter \<Rightarrow> error + query" where
  "AddingFilter q f =
     (if IsDocumentQuery q then Inl NoFilterForDocumentQuery
      else
        let new_inequality_field = GetFirstInequalityField f;
            query_inequality_field = InequalityFilterField q
        in
          if \<not> (query_inequality_field = None \<or> new_inequality_field = None \<or>
                 query_inequality_field = new_inequality_field)
          then Inl OnlyOneInequalityField
          else if \<not> (explicit_order_bys q = [] \<or> new_inequality_field = None \<or>
                      Some (field (explicit_order_bys q ! 0)) = new_inequality_field)
          then Inl FilterFirstOrderByMustMatch
          else Inr (q\<lparr>filters := filters q @ [f]\<rparr>))"

definition AddingOrderBy :: "query \<Rightarrow> order_by \<Rightarrow> error + query" where
  "AddingOrderBy q ob =
     (if IsDocumentQuery q then Inl NoOrderingForDocumentQuery
      else if explicit_order_bys q = [] \<and>
              \<not> (InequalityFilterField q = None \<or> InequalityFilterField q = Some (field ob))
      then Inl OrderByMustMatchInequality
      else Inr (q\<lparr>explicit_order_bys := explicit_order_bys q @ [ob]\<rparr>))"

definition WithLimitToFirst :: "query \<Rightarrow> 32 word \<Rightarrow> query" where
  "WithLimitToFirst q n = q\<lparr>limit := n, limit_type := First\<rparr>"

definition WithLimitToLast :: "query \<Rightarrow> 32 word \<Rightarrow> query" where
  "WithLimitToLast q n = q\<lparr>limit := n, limit_type := Last\<rparr>"

definition StartingAt :: "query \<Rightarrow> bound \<Rightarrow> query" where
  "StartingAt q b = q\<lparr>start_at := Some b\<rparr>"

definition EndingAt :: "query \<Rightarrow> bound \<Rightarrow> query" where
  "EndingAt q b = q\<lparr>end_at := Some b\<rparr>"

definition AsCollectionQueryAtPath :: "query \<Rightarrow> resource_path \<Rightarrow> query" where
  "AsCollectionQueryAtPath q p = q\<lparr>path := p, collection_group := None\<rparr>"

subsection \<open>Matching\<close>

definition MatchesPathAndCollectionGroup :: "query \<Rightarrow> document \<Rightarrow> bool" where
  "MatchesPathAndCollectionGroup q doc =
     (let doc_path = key_path doc in
      case collection_group q of
        Some cg \<Rightarrow> HasCollectionGroup doc_path cg \<and> IsPrefixOf (path q) doc_path
      | None \<Rightarrow>
          if IsDocumentKey (path q) then path q = doc_path
          else IsImmediateParentOf (path q) doc_path)"

definition MatchesFilters :: "query \<Rightarrow> document \<Rightarrow> bool" where
  "MatchesFilters q doc = list_all (\<lambda>f. filter_Matches f doc) (filters q)"

text \<open>The loop of \<^verbatim>\<open>MatchesOrderBy\<close> over the normalized clauses.\<close>

fun order_bys_present :: "order_by list \<Rightarrow> document \<Rightarrow> bool" where
  "order_bys_present [] doc = True"
| "order_bys_present (ob # obs) doc =
     (if field ob \<noteq> KeyFieldPath \<and> doc_field doc (field ob) = None then False
      else order_bys_present obs doc)"

definition MatchesOrderBy :: "query \<Rightarrow> document \<Rightarrow> error + bool" where
  "MatchesOrderBy q doc =
     (case normalized_order_bys q of
        Inl e \<Rightarrow> Inl e
      | Inr obs \<Rightarrow> Inr (order_bys_present obs doc))"

text \<open>
  \<^verbatim>\<open>Bound::SortsBeforeDocument\<close> and \<^verbatim>\<open>Bound::SortsAfterDocument\<close> (core/bound.cc) are
  parameters: \<open>before\<close> and \<open>after\<close>.
\<close>

type_synonym bound_test = "bound \<Rightarrow> order_by list \<Rightarrow> document \<Rightarrow> bool"

definition MatchesBounds :: "bound_test \<Rightarrow> bound_test \<Rightarrow> query \<Rightarrow> document \<Rightarrow> error + bool" where
  "MatchesBounds before after q doc =
     (let end_check =
            (case end_at q of
               None \<Rightarrow> Inr True
             | Some e \<Rightarrow>
                 (case normalized_order_bys q of
                    Inl err \<Rightarrow> Inl err
                  | Inr obs \<Rightarrow> if \<not> after e obs doc then Inr False else Inr True))
      in
        case start_at q of
          None \<Rightarrow> end_check
        | Some s \<Rightarrow>
            (case normalized_order_bys q of
               Inl err \<Rightarrow> Inl err
             | Inr obs \<Rightarrow> if \<not> before s obs doc then Inr False else end_check))"

text \<open>The chain of \<^verbatim>\<open>&&\<close> in \<^verbatim>\<open>Matches\<close> stops at the first operand that is false.\<close>

definition Matches :: "bound_test \<Rightarrow> bound_test \<Rightarrow> query \<Rightarrow> document \<Rightarrow> error + bool" where
  "Matches before after q doc =
     (if \<not> is_found_document doc then Inr False
      else if \<not> MatchesPathAndCollectionGroup q doc then Inr False
      else
        case MatchesOrderBy q doc of
          Inl e \<Rightarrow> Inl e
        | Inr ordered \<Rightarrow>
            if \<not> ordered then Inr False
            else if \<not> MatchesFilters q doc then Inr False
            else MatchesBounds before after q doc)"

subsection \<open>Comparator\<close>

text \<open>The loop that sets \<^verbatim>\<open>has_key_ordering\<close>.\<close>

fun has_key_ordering :: "order_by list \<Rightarrow> bool" where
  "has_key_ordering [] = False"
| "has_key_ordering (ob # obs) =
     (if field ob = KeyFieldPath then True else has_key_ordering obs)"

text \<open>
  The body of the lambda the comparator wraps; \<^verbatim>\<open>OrderBy::Compare\<close> (core/order\_by.cc) is
  the parameter \<open>cmp\<close>.
\<close>

type_synonym order_by_compare = "order_by \<Rightarrow> document \<Rightarrow> document \<Rightarrow> ComparisonResult"

fun compare_by :: "order_by_compare \<Rightarrow> order_by list \<Rightarrow> document \<Rightarrow> document \<Rightarrow> ComparisonResult" where
  "compare_by cmp [] doc1 doc2 = Same"
| "compare_by cmp (ob # obs) doc1 doc2 =
     (let comp = cmp ob doc1 doc2 in
      if comp \<noteq> Same then comp else compare_by cmp obs doc1 doc2)"

definition Comparator ::
  "order_by_compare \<Rightarrow> query \<Rightarrow> error + (document \<Rightarrow> document \<Rightarrow> ComparisonResult)" where
  "Comparator cmp q =
     (case normalized_order_bys q of
        Inl e \<Rightarrow> Inl e
      | Inr order_bys \<Rightarrow>
          if \<not> has_key_ordering order_bys then Inl ComparatorNeedsKeyOrdering
          else Inr (compare_by cmp order_bys))"

subsection \<open>Targets, canonical id, equality\<close>

text \<open>The loop of \<^verbatim>\<open>ToTarget(order_bys)\<close> that flips each direction.\<close>

fun new_order_bys :: "order_by list \<Rightarrow> order_by list" where
  "new_order_bys [] = []"
| "new_order_bys (ob # obs) =
     OrderBy (field ob) (if direction ob = Descending then Ascending else Descending)
       # new_order_bys obs"

definition ToTarget_of :: "query \<Rightarrow> order_by list \<Rightarrow> target" where
  "ToTarget_of q order_bys =
     (if limit_type q = Last then
        let new_start_at =
              (case end_at q of
                 Some e \<Rightarrow> Some (FromValue (position e) (inclusive e))
               | None \<Rightarrow> None);
            new_end_at =
              (case start_at q of
                 Some s \<Rightarrow> Some (FromValue (position s) (inclusive s))
               | None \<Rightarrow> None)
        in \<lparr>t_path = path q, t_collection_group = collection_group q,
            t_filters = filters q, t_order_bys = new_order_bys order_bys,
            t_limit = limit q, t_start_at = new_start_at, t_end_at = new_end_at\<rparr>
      else
        \<lparr>t_path = path q, t_collection_group = collection_group q,
         t_filters = filters q, t_order_bys = order_bys,
         t_limit = limit q, t_start_at = start_at q, t_end_at = end_at q\<rparr>)"

definition ToTarget :: "query \<Rightarrow> error + target" where
  "ToTarget q =
     (case normalized_order_bys q of
        Inl e \<Rightarrow> Inl e
      | Inr obs \<Rightarrow> Inr (ToTarget_of q obs))"

definition ToAggregateTarget :: "query \<Rightarrow> target" where
  "ToAggregateTarget q = ToTarget_of q (explicit_order_bys q)"

text \<open>
  \<^verbatim>\<open>Target::CanonicalId\<close> (core/target.cc) is the parameter \<open>target_id\<close>: the spec leaves
  its format to the target.
\<close>

definition CanonicalId :: "(target \<Rightarrow> string) \<Rightarrow> query \<Rightarrow> error + string" where
  "CanonicalId target_id q =
     (case ToTarget q of
        Inl e \<Rightarrow> Inl e
      | Inr t \<Rightarrow>
          if limit_type q \<noteq> None_lt
          then Inr (target_id t @ ''|lt:'' @ (if limit_type q = Last then ''l'' else ''f''))
          else Inr (target_id t))"

text \<open>
  \<^verbatim>\<open>operator==\<close>: the targets are derived only when the limit types agree, and either
  derivation can stop at the assertion of \<^verbatim>\<open>normalized_order_bys\<close>.
\<close>

definition query_equal :: "query \<Rightarrow> query \<Rightarrow> error + bool" where
  "query_equal lhs rhs =
     (if limit_type lhs \<noteq> limit_type rhs then Inr False
      else
        case ToTarget lhs of
          Inl e \<Rightarrow> Inl e
        | Inr t1 \<Rightarrow>
            (case ToTarget rhs of
               Inl e \<Rightarrow> Inl e
             | Inr t2 \<Rightarrow> Inr (t1 = t2)))"

subsection \<open>The memo cells\<close>

text \<open>
  The accessors as the file has them, with the cells they read and write: the cell for
  the normalized order-bys counts as unset while it is empty, the two target cells while
  they are null. \<open>cells_of\<close> says that every cell that is set holds what the accessor
  computes for the query.
\<close>

record memo_cells =
  memoized_normalized_order_bys :: "order_by list"
  memoized_target :: "target option"
  memoized_aggregate_target :: "target option"

definition empty_cells :: memo_cells where
  "empty_cells =
     \<lparr>memoized_normalized_order_bys = [], memoized_target = None,
      memoized_aggregate_target = None\<rparr>"

definition normalized_order_bys_memo ::
  "query \<Rightarrow> memo_cells \<Rightarrow> error + (order_by list \<times> memo_cells)" where
  "normalized_order_bys_memo q cells =
     (if memoized_normalized_order_bys cells = [] then
        case normalized_order_bys q of
          Inl e \<Rightarrow> Inl e
        | Inr obs \<Rightarrow> Inr (obs, cells\<lparr>memoized_normalized_order_bys := obs\<rparr>)
      else Inr (memoized_normalized_order_bys cells, cells))"

definition ToTarget_memo :: "query \<Rightarrow> memo_cells \<Rightarrow> error + (target \<times> memo_cells)" where
  "ToTarget_memo q cells =
     (case memoized_target cells of
        None \<Rightarrow>
          (case normalized_order_bys_memo q cells of
             Inl e \<Rightarrow> Inl e
           | Inr (obs, cells') \<Rightarrow>
               Inr (ToTarget_of q obs, cells'\<lparr>memoized_target := Some (ToTarget_of q obs)\<rparr>))
      | Some t \<Rightarrow> Inr (t, cells))"

definition ToAggregateTarget_memo :: "query \<Rightarrow> memo_cells \<Rightarrow> target \<times> memo_cells" where
  "ToAggregateTarget_memo q cells =
     (case memoized_aggregate_target cells of
        None \<Rightarrow>
          (ToTarget_of q (explicit_order_bys q),
           cells\<lparr>memoized_aggregate_target := Some (ToTarget_of q (explicit_order_bys q))\<rparr>)
      | Some t \<Rightarrow> (t, cells))"

definition cells_of :: "query \<Rightarrow> memo_cells \<Rightarrow> bool" where
  "cells_of q cells =
     ((memoized_normalized_order_bys cells = [] \<or>
       normalized_order_bys q = Inr (memoized_normalized_order_bys cells)) \<and>
      (case memoized_target cells of None \<Rightarrow> True | Some t \<Rightarrow> ToTarget q = Inr t) \<and>
      (case memoized_aggregate_target cells of
         None \<Rightarrow> True
       | Some t \<Rightarrow> ToAggregateTarget q = t))"

subsection \<open>What the builders keep\<close>

text \<open>
  The condition that the assertion of \<^verbatim>\<open>normalized_order_bys\<close> checks: an inequality field
  and a first explicit order-by field, when both exist, are the same field.
\<close>

definition inequality_matches_first_order_by :: "query \<Rightarrow> bool" where
  "inequality_matches_first_order_by q =
     (case (InequalityFilterField q, FirstOrderByField q) of
        (Some i, Some f) \<Rightarrow> i = f
      | _ \<Rightarrow> True)"

text \<open>
  The queries that the builder methods produce, starting from a query with a scope only
  (the two-argument constructor of the file sets a collection group; the limit of a
  fresh query is left open).
\<close>

inductive built :: "query \<Rightarrow> bool" where
  built_fresh:
    "built \<lparr>path = p, collection_group = cg, filters = [], explicit_order_bys = [],
            limit = n, limit_type = None_lt, start_at = None, end_at = None\<rparr>"
| built_AddingFilter: "built q \<Longrightarrow> AddingFilter q f = Inr q' \<Longrightarrow> built q'"
| built_AddingOrderBy: "built q \<Longrightarrow> AddingOrderBy q ob = Inr q' \<Longrightarrow> built q'"
| built_WithLimitToFirst: "built q \<Longrightarrow> built (WithLimitToFirst q n)"
| built_WithLimitToLast: "built q \<Longrightarrow> built (WithLimitToLast q n)"
| built_StartingAt: "built q \<Longrightarrow> built (StartingAt q b)"
| built_EndingAt: "built q \<Longrightarrow> built (EndingAt q b)"
| built_AsCollectionQueryAtPath: "built q \<Longrightarrow> built (AsCollectionQueryAtPath q p)"

section \<open>Example queries and documents\<close>

text \<open>The filter \<^verbatim>\<open>score > 10\<close>: its inequality field is \<^verbatim>\<open>score\<close>.\<close>

definition score_gt_10 :: core_filter where
  "score_gt_10 =
     \<lparr>GetFirstInequalityField = Some [''score''],
      filter_Matches =
        (\<lambda>doc. case doc_field doc [''score''] of
                  Some (IntegerValue n) \<Rightarrow> 10 < n
                | _ \<Rightarrow> False)\<rparr>"

text \<open>
  \<^verbatim>\<open>Query(ResourcePath(), "rooms")\<close>: the collection group \<^verbatim>\<open>rooms\<close>, nothing else set.
\<close>

definition rooms_group :: query where
  "rooms_group =
     \<lparr>path = [], collection_group = Some ''rooms'', filters = [], explicit_order_bys = [],
      limit = 2147483647, limit_type = None_lt, start_at = None, end_at = None\<rparr>"

definition rooms_by_score :: query where
  "rooms_by_score = rooms_group\<lparr>filters := [score_gt_10]\<rparr>"

text \<open>
  A query value that filters on \<^verbatim>\<open>score\<close> by inequality and orders by \<^verbatim>\<open>name\<close> first. The
  constructor takes it; no chain of builder calls returns it.
\<close>

definition mismatched_query :: query where
  "mismatched_query =
     rooms_group\<lparr>filters := [score_gt_10],
                  explicit_order_bys := [OrderBy [''name''] Ascending]\<rparr>"

text \<open>Ordered by key, then by \<^verbatim>\<open>name\<close>: two calls of \<^verbatim>\<open>AddingOrderBy\<close>.\<close>

definition key_then_name :: query where
  "key_then_name =
     rooms_group\<lparr>explicit_order_bys :=
       [OrderBy KeyFieldPath Ascending, OrderBy [''name''] Ascending]\<rparr>"

text \<open>The last three rooms by score, between two cursors.\<close>

definition last_three :: query where
  "last_three =
     rooms_group\<lparr>filters := [score_gt_10], limit := 3, limit_type := Last,
                  start_at := Some (Bound [IntegerValue 20] True),
                  end_at := Some (Bound [IntegerValue 90] False)\<rparr>"

definition unscored_room :: document where
  "unscored_room =
     \<lparr>key_path = [''rooms'', ''r1''], is_found_document = True, doc_field = Map.empty\<rparr>"

definition doc_abc :: document where
  "doc_abc =
     \<lparr>key_path = [''a'', ''b'', ''c''], is_found_document = True, doc_field = Map.empty\<rparr>"

definition query_at :: "resource_path \<Rightarrow> query" where
  "query_at p =
     \<lparr>path = p, collection_group = None, filters = [], explicit_order_bys = [],
      limit = 2147483647, limit_type = None_lt, start_at = None, end_at = None\<rparr>"

text \<open>The first three rooms by score.\<close>

definition first_three :: query where
  "first_three = rooms_group\<lparr>filters := [score_gt_10], limit := 3, limit_type := First\<rparr>"

definition rooms_by_key :: query where
  "rooms_by_key = rooms_group\<lparr>explicit_order_bys := [OrderBy KeyFieldPath Ascending]\<rparr>"

definition rooms_by_name :: query where
  "rooms_by_name = rooms_group\<lparr>explicit_order_bys := [OrderBy [''name''] Descending]\<rparr>"

section \<open>The loops, in closed form\<close>

lemma found_explicit_key_order_iff:
  "found_explicit_key_order obs \<longleftrightarrow> (\<exists>ob\<in>set obs. field ob = KeyFieldPath)"
  by (induction obs) (auto simp: IsKeyFieldPath_def)

lemma has_key_ordering_iff:
  "has_key_ordering obs \<longleftrightarrow> (\<exists>ob\<in>set obs. field ob = KeyFieldPath)"
  by (induction obs) auto

lemma first_inequality_append:
  "first_inequality (fs @ [f]) =
     (case first_inequality fs of Some i \<Rightarrow> Some i | None \<Rightarrow> GetFirstInequalityField f)"
  by (induction fs) (auto split: option.splits)

lemma new_order_bys_map:
  "new_order_bys obs =
     map (\<lambda>ob. OrderBy (field ob)
                 (case direction ob of Ascending \<Rightarrow> Descending | Descending \<Rightarrow> Ascending)) obs"
  by (induction obs) (auto split: Direction.splits)

lemma order_bys_present_iff:
  "order_bys_present obs doc \<longleftrightarrow>
     (\<forall>ob\<in>set obs. field ob = KeyFieldPath \<or> doc_field doc (field ob) \<noteq> None)"
  by (induction obs) auto

lemma FromValue_same: "FromValue (position b) (inclusive b) = b"
  by (simp add: FromValue_def)

lemma swapped_cursor:
  "(case c of Some b \<Rightarrow> Some (FromValue (position b) (inclusive b)) | None \<Rightarrow> None) = c"
  by (cases c) (simp_all add: FromValue_same)

section \<open>Paths\<close>

lemma IsPrefixOf_iff: "IsPrefixOf p other \<longleftrightarrow> (\<exists>rest. other = p @ rest)"
  by (induction p other rule: IsPrefixOf.induct) auto

lemma IsImmediateParentOf_iff: "IsImmediateParentOf p other \<longleftrightarrow> (\<exists>s. other = p @ [s])"
proof
  assume "IsImmediateParentOf p other"
  then obtain rest where "other = p @ rest" and "length p + 1 = length other"
    by (auto simp: IsImmediateParentOf_def IsPrefixOf_iff)
  then have "length rest = 1" by simp
  then obtain s where "rest = [s]" by (cases rest) auto
  with \<open>other = p @ rest\<close> show "\<exists>s. other = p @ [s]" by blast
next
  assume "\<exists>s. other = p @ [s]"
  then show "IsImmediateParentOf p other"
    by (auto simp: IsImmediateParentOf_def IsPrefixOf_iff)
qed

lemma HasCollectionGroup_iff:
  "HasCollectionGroup doc_path cg \<longleftrightarrow> (\<exists>parent doc_id. doc_path = parent @ [cg, doc_id])"
proof
  assume h: "HasCollectionGroup doc_path cg"
  then have len: "2 \<le> length doc_path" and nth: "doc_path ! (length doc_path - 2) = cg"
    by (simp_all add: HasCollectionGroup_def)
  define parent where "parent = take (length doc_path - 2) doc_path"
  define tl2 where "tl2 = drop (length doc_path - 2) doc_path"
  have "length tl2 = 2" using len by (simp add: tl2_def)
  then obtain a b where ab: "tl2 = [a, b]"
    by (cases tl2; cases "tl tl2") auto
  have split: "doc_path = parent @ tl2" by (simp add: parent_def tl2_def)
  have "length parent = length doc_path - 2" using len by (simp add: parent_def)
  then have "doc_path ! (length doc_path - 2) = a"
    using split ab by (metis nth_append_length)
  with nth split ab show "\<exists>parent doc_id. doc_path = parent @ [cg, doc_id]" by blast
next
  assume "\<exists>parent doc_id. doc_path = parent @ [cg, doc_id]"
  then show "HasCollectionGroup doc_path cg"
    by (auto simp: HasCollectionGroup_def nth_append)
qed

lemma scope_iff:
  "MatchesPathAndCollectionGroup q doc \<longleftrightarrow>
      (case collection_group q of
         Some cg \<Rightarrow>
           (\<exists>parent doc_id. key_path doc = parent @ [cg, doc_id]) \<and>
           (\<exists>rest. key_path doc = path q @ rest)
       | None \<Rightarrow>
           if IsDocumentKey (path q) then key_path doc = path q
           else (\<exists>doc_id. key_path doc = path q @ [doc_id]))"
  by (simp add: MatchesPathAndCollectionGroup_def Let_def IsPrefixOf_iff
        IsImmediateParentOf_iff HasCollectionGroup_iff eq_commute [of "path q"]
      split: option.splits)

lemma scope_example:
  assumes "collection_group q = None" and "key_path doc = [a, b, c]"
  shows "path q = [a, b] \<Longrightarrow> MatchesPathAndCollectionGroup q doc"
    and "path q = [a] \<Longrightarrow> \<not> MatchesPathAndCollectionGroup q doc"
  using assms by (simp_all add: scope_iff IsDocumentKey_def)

section \<open>Normalization of the order-bys\<close>

lemma normalized_order_bys_eq:
  "normalized_order_bys q =
     (if \<not> inequality_matches_first_order_by q then Inl FirstOrderByShouldMatchInequality
      else
        case (InequalityFilterField q, explicit_order_bys q) of
          (Some I, []) \<Rightarrow>
            Inr (if I = KeyFieldPath then [OrderBy KeyFieldPath Ascending]
                 else [OrderBy I Ascending, OrderBy KeyFieldPath Ascending])
        | _ \<Rightarrow>
            Inr (explicit_order_bys q @
                 (if \<exists>ob\<in>set (explicit_order_bys q). field ob = KeyFieldPath then []
                  else [OrderBy KeyFieldPath
                          (if explicit_order_bys q = [] then Ascending
                           else direction (last (explicit_order_bys q)))])))"
  by (auto simp: normalized_order_bys_def inequality_matches_first_order_by_def
        FirstOrderByField_def found_explicit_key_order_iff IsKeyFieldPath_def Let_def
      split: option.splits list.splits)

lemma normalized_order_bys_returns_iff:
  "(\<exists>obs. normalized_order_bys q = Inr obs) \<longleftrightarrow> inequality_matches_first_order_by q"
  by (auto simp: normalized_order_bys_eq split: option.splits list.splits)

lemma normalized_order_bys_fails:
  "normalized_order_bys q = Inl e \<Longrightarrow> e = FirstOrderByShouldMatchInequality"
  by (auto simp: normalized_order_bys_eq split: option.splits list.splits if_splits)

lemma normalized_order_bys_forms:
  assumes "normalized_order_bys q = Inr obs"
  obtains "explicit_order_bys q = []" and "obs = [OrderBy KeyFieldPath Ascending]"
  | I where "explicit_order_bys q = []"
      and "obs = [OrderBy I Ascending, OrderBy KeyFieldPath Ascending]"
  | "\<exists>ob\<in>set (explicit_order_bys q). field ob = KeyFieldPath"
      and "obs = explicit_order_bys q"
  | d where "\<not> (\<exists>ob\<in>set (explicit_order_bys q). field ob = KeyFieldPath)"
      and "obs = explicit_order_bys q @ [OrderBy KeyFieldPath d]"
  using assms unfolding normalized_order_bys_eq
  by (cases "InequalityFilterField q"; cases "explicit_order_bys q")
     (auto split: if_splits)

lemma normalized_order_bys_shape:
  assumes "normalized_order_bys q = Inr obs"
  shows "obs \<noteq> []"
    and "\<exists>ob\<in>set obs. field ob = KeyFieldPath"
    and "field (last obs) = KeyFieldPath \<longleftrightarrow>
           (\<not> (\<exists>ob\<in>set (explicit_order_bys q). field ob = KeyFieldPath) \<or>
            field (last (explicit_order_bys q)) = KeyFieldPath)"
proof -
  show "obs \<noteq> []"
    using assms by (rule normalized_order_bys_forms) auto
  show "\<exists>ob\<in>set obs. field ob = KeyFieldPath"
    using assms by (rule normalized_order_bys_forms) auto
  show "field (last obs) = KeyFieldPath \<longleftrightarrow>
           (\<not> (\<exists>ob\<in>set (explicit_order_bys q). field ob = KeyFieldPath) \<or>
            field (last (explicit_order_bys q)) = KeyFieldPath)"
    using assms by (rule normalized_order_bys_forms) auto
qed

section \<open>The builders keep the first order-by on the inequality field\<close>

lemma AddingFilter_keeps:
  assumes "inequality_matches_first_order_by q" and "AddingFilter q f = Inr q'"
  shows "inequality_matches_first_order_by q'"
proof -
  from assms(2) have q': "q' = q\<lparr>filters := filters q @ [f]\<rparr>"
    by (auto simp: AddingFilter_def Let_def split: if_splits)
  from assms(2) have ok:
    "InequalityFilterField q = None \<or> GetFirstInequalityField f = None \<or>
     InequalityFilterField q = GetFirstInequalityField f"
    "explicit_order_bys q = [] \<or> GetFirstInequalityField f = None \<or>
     Some (field (explicit_order_bys q ! 0)) = GetFirstInequalityField f"
    by (auto simp: AddingFilter_def Let_def split: if_splits)
  show ?thesis
    using assms(1) ok
    by (cases "explicit_order_bys q")
       (auto simp: q' inequality_matches_first_order_by_def InequalityFilterField_def
          FirstOrderByField_def first_inequality_append split: option.splits)
qed

lemma AddingOrderBy_keeps:
  assumes "inequality_matches_first_order_by q" and "AddingOrderBy q ob = Inr q'"
  shows "inequality_matches_first_order_by q'"
proof -
  from assms(2) have q': "q' = q\<lparr>explicit_order_bys := explicit_order_bys q @ [ob]\<rparr>"
    by (auto simp: AddingOrderBy_def split: if_splits)
  from assms(2) have ok:
    "explicit_order_bys q = [] \<Longrightarrow>
       InequalityFilterField q = None \<or> InequalityFilterField q = Some (field ob)"
    by (auto simp: AddingOrderBy_def split: if_splits)
  show ?thesis
    using assms(1) ok
    by (cases "explicit_order_bys q")
       (auto simp: q' inequality_matches_first_order_by_def InequalityFilterField_def
          FirstOrderByField_def split: option.splits)
qed

lemma built_inequality_matches_first_order_by:
  "built q \<Longrightarrow> inequality_matches_first_order_by q"
proof (induction rule: built.induct)
  case (built_fresh p cg n)
  show ?case
    by (simp add: inequality_matches_first_order_by_def InequalityFilterField_def)
next
  case (built_AddingFilter q f q')
  then show ?case by (blast intro: AddingFilter_keeps)
next
  case (built_AddingOrderBy q ob q')
  then show ?case by (blast intro: AddingOrderBy_keeps)
qed (simp_all add: inequality_matches_first_order_by_def InequalityFilterField_def
       FirstOrderByField_def WithLimitToFirst_def WithLimitToLast_def StartingAt_def
       EndingAt_def AsCollectionQueryAtPath_def)

lemma built_normalized_order_bys_returns:
  "built q \<Longrightarrow> \<exists>obs. normalized_order_bys q = Inr obs"
  by (simp add: normalized_order_bys_returns_iff built_inequality_matches_first_order_by)

section \<open>The memo cells hold what the accessors compute\<close>

lemma cells_of_empty: "cells_of q empty_cells"
  by (simp add: cells_of_def empty_cells_def)

lemma normalized_order_bys_memo_result:
  assumes "cells_of q cells"
  shows "map_sum id fst (normalized_order_bys_memo q cells) = normalized_order_bys q"
    and "normalized_order_bys_memo q cells = Inr (obs, cells') \<Longrightarrow> cells_of q cells'"
  using assms
  by (auto simp: normalized_order_bys_memo_def cells_of_def split: sum.splits if_splits)

lemma ToTarget_memo_result:
  assumes "cells_of q cells"
  shows "map_sum id fst (ToTarget_memo q cells) = ToTarget q"
    and "ToTarget_memo q cells = Inr (t, cells') \<Longrightarrow> cells_of q cells'"
  using assms
  by (auto simp: ToTarget_memo_def normalized_order_bys_memo_def cells_of_def ToTarget_def
      split: sum.splits if_splits option.splits)

lemma ToAggregateTarget_memo_result:
  assumes "cells_of q cells"
  shows "fst (ToAggregateTarget_memo q cells) = ToAggregateTarget q"
    and "cells_of q (snd (ToAggregateTarget_memo q cells))"
  using assms
  by (auto simp: ToAggregateTarget_memo_def cells_of_def ToAggregateTarget_def
      split: option.splits)

section \<open>Comparator, targets, canonical id and equality in closed form\<close>

lemma Comparator_eq:
  "Comparator cmp q =
     (case normalized_order_bys q of Inl e \<Rightarrow> Inl e | Inr obs \<Rightarrow> Inr (compare_by cmp obs))"
  by (auto simp: Comparator_def has_key_ordering_iff normalized_order_bys_shape(2)
      split: sum.splits)

lemma ToTarget_returns_iff:
  "(\<exists>t. ToTarget q = Inr t) \<longleftrightarrow> inequality_matches_first_order_by q"
  unfolding normalized_order_bys_returns_iff [symmetric]
  by (auto simp: ToTarget_def split: sum.splits)

lemma CanonicalId_eq:
  "CanonicalId target_id q =
     (case ToTarget q of
        Inl e \<Rightarrow> Inl e
      | Inr t \<Rightarrow>
          Inr (target_id t @
               (case limit_type q of
                  None_lt \<Rightarrow> []
                | First \<Rightarrow> ''|lt:f''
                | Last \<Rightarrow> ''|lt:l'')))"
  by (cases "limit_type q") (simp_all add: CanonicalId_def split: sum.splits)

lemma query_equal_eq:
  "query_equal q1 q2 =
     (if limit_type q1 \<noteq> limit_type q2 then Inr False
      else case (ToTarget q1, ToTarget q2) of
             (Inr t1, Inr t2) \<Rightarrow> Inr (t1 = t2)
           | _ \<Rightarrow> Inl FirstOrderByShouldMatchInequality)"
  by (auto simp: query_equal_def ToTarget_def split: sum.splits
      dest: normalized_order_bys_fails)

lemma AddingOrderBy_key_normalized:
  assumes nokey: "\<not> (\<exists>ob\<in>set (explicit_order_bys q). field ob = KeyFieldPath)"
    and side: "explicit_order_bys q \<noteq> [] \<or> InequalityFilterField q = None \<or>
               InequalityFilterField q = Some KeyFieldPath"
    and d: "d = (if explicit_order_bys q = [] then Ascending
                 else direction (last (explicit_order_bys q)))"
  shows "normalized_order_bys (q\<lparr>explicit_order_bys := explicit_order_bys q @ [OrderBy KeyFieldPath d]\<rparr>)
         = normalized_order_bys q"
proof (cases "explicit_order_bys q")
  case Nil
  with side d show ?thesis
    by (auto simp: normalized_order_bys_def InequalityFilterField_def FirstOrderByField_def
          IsKeyFieldPath_def split: option.splits)
next
  case (Cons ob rest)
  with nokey d show ?thesis
    by (auto simp: normalized_order_bys_def InequalityFilterField_def FirstOrderByField_def
          IsKeyFieldPath_def found_explicit_key_order_iff split: option.splits)
qed

lemma ToTarget_of_explicit_order_bys:
  "ToTarget_of (q\<lparr>explicit_order_bys := xs\<rparr>) obs = ToTarget_of q obs"
  by (simp add: ToTarget_of_def)

section \<open>Evaluating the examples\<close>

lemma rooms_by_score_normalized:
  "normalized_order_bys rooms_by_score =
     Inr [OrderBy [''score''] Ascending, OrderBy KeyFieldPath Ascending]"
  by (simp add: rooms_by_score_def rooms_group_def score_gt_10_def normalized_order_bys_def
        InequalityFilterField_def FirstOrderByField_def IsKeyFieldPath_def KeyFieldPath_def)

lemma rooms_by_score_matches:
  "inequality_matches_first_order_by rooms_by_score"
  by (simp add: rooms_by_score_def rooms_group_def score_gt_10_def
        inequality_matches_first_order_by_def InequalityFilterField_def FirstOrderByField_def)

lemma mismatched_query_normalized:
  "normalized_order_bys mismatched_query = Inl FirstOrderByShouldMatchInequality"
  by (simp add: mismatched_query_def rooms_group_def score_gt_10_def normalized_order_bys_def
        InequalityFilterField_def FirstOrderByField_def)

lemma key_then_name_normalized:
  "normalized_order_bys key_then_name =
     Inr [OrderBy KeyFieldPath Ascending, OrderBy [''name''] Ascending]"
  by (simp add: key_then_name_def rooms_group_def normalized_order_bys_def
        InequalityFilterField_def FirstOrderByField_def IsKeyFieldPath_def KeyFieldPath_def)

lemma key_then_name_matches:
  "inequality_matches_first_order_by key_then_name"
  by (simp add: key_then_name_def rooms_group_def inequality_matches_first_order_by_def
        InequalityFilterField_def)

lemma last_three_normalized:
  "normalized_order_bys last_three =
     Inr [OrderBy [''score''] Ascending, OrderBy KeyFieldPath Ascending]"
  by (simp add: last_three_def rooms_group_def score_gt_10_def normalized_order_bys_def
        InequalityFilterField_def FirstOrderByField_def IsKeyFieldPath_def KeyFieldPath_def)

lemma mismatched_query_not_built: "\<not> built mismatched_query"
  using built_normalized_order_bys_returns [of mismatched_query] mismatched_query_normalized
  by auto

lemma first_three_target:
  "ToTarget first_three =
     Inr \<lparr>t_path = [], t_collection_group = Some ''rooms'', t_filters = [score_gt_10],
          t_order_bys = [OrderBy [''score''] Ascending, OrderBy KeyFieldPath Ascending],
          t_limit = 3, t_start_at = None, t_end_at = None\<rparr>"
  by (simp add: ToTarget_def ToTarget_of_def first_three_def rooms_group_def score_gt_10_def
        normalized_order_bys_def InequalityFilterField_def FirstOrderByField_def
        IsKeyFieldPath_def KeyFieldPath_def)

lemma last_three_target:
  "ToTarget last_three =
     Inr \<lparr>t_path = [], t_collection_group = Some ''rooms'', t_filters = [score_gt_10],
          t_order_bys = [OrderBy [''score''] Descending, OrderBy KeyFieldPath Descending],
          t_limit = 3,
          t_start_at = Some (Bound [IntegerValue 90] False),
          t_end_at = Some (Bound [IntegerValue 20] True)\<rparr>"
  by (simp add: ToTarget_def ToTarget_of_def last_three_normalized)
     (simp add: last_three_def rooms_group_def FromValue_def)

lemma rooms_group_target:
  "ToTarget rooms_group =
     Inr \<lparr>t_path = [], t_collection_group = Some ''rooms'', t_filters = [],
          t_order_bys = [OrderBy KeyFieldPath Ascending],
          t_limit = 2147483647, t_start_at = None, t_end_at = None\<rparr>"
  by (simp add: ToTarget_def ToTarget_of_def rooms_group_def
        normalized_order_bys_def InequalityFilterField_def FirstOrderByField_def)

lemma rooms_by_key_target:
  "ToTarget rooms_by_key =
     Inr \<lparr>t_path = [], t_collection_group = Some ''rooms'', t_filters = [],
          t_order_bys = [OrderBy KeyFieldPath Ascending],
          t_limit = 2147483647, t_start_at = None, t_end_at = None\<rparr>"
  by (simp add: ToTarget_def ToTarget_of_def rooms_by_key_def rooms_group_def
        normalized_order_bys_def InequalityFilterField_def FirstOrderByField_def
        IsKeyFieldPath_def)

section \<open>The claims\<close>

text \<open>
  Claim C1, as amended. \<^verbatim>\<open>normalized_order_bys()\<close> first checks that an inequality field
  and a first explicit order-by field, when both exist, are the same field, and fails
  fatally when they are not. Otherwise: with an inequality field \<open>I\<close> and no explicit
  order-by the result is \<open>[(key, Ascending)]\<close> when \<open>I\<close> is the key field and
  \<open>[(I, Ascending), (key, Ascending)]\<close> when it is not; in every other case the result is
  the explicit order-bys verbatim, followed, when none of them is on the key field, by a
  clause on the key whose direction is that of the last explicit clause (Ascending when
  there is none).
\<close>

theorem normalized_order_bys_computed:
  "normalized_order_bys q =
     (if \<not> inequality_matches_first_order_by q then Inl FirstOrderByShouldMatchInequality
      else
        case (InequalityFilterField q, explicit_order_bys q) of
          (Some I, []) \<Rightarrow>
            Inr (if I = KeyFieldPath then [OrderBy KeyFieldPath Ascending]
                 else [OrderBy I Ascending, OrderBy KeyFieldPath Ascending])
        | _ \<Rightarrow>
            Inr (explicit_order_bys q @
                 (if \<exists>ob\<in>set (explicit_order_bys q). field ob = KeyFieldPath then []
                  else [OrderBy KeyFieldPath
                          (if explicit_order_bys q = [] then Ascending
                           else direction (last (explicit_order_bys q)))])))"
proof (cases "InequalityFilterField q")
  case None
  then have "inequality_matches_first_order_by q"
    by (simp add: inequality_matches_first_order_by_def)
  with None show ?thesis
    by (simp add: normalized_order_bys_def found_explicit_key_order_iff)
next
  case (Some I)
  show ?thesis
  proof (cases "explicit_order_bys q")
    case Nil
    with Some show ?thesis
      by (simp add: normalized_order_bys_def inequality_matches_first_order_by_def
            FirstOrderByField_def IsKeyFieldPath_def)
  next
    case (Cons ob rest)
    with Some have "inequality_matches_first_order_by q \<longleftrightarrow> I = field ob"
      by (simp add: inequality_matches_first_order_by_def FirstOrderByField_def)
    with Some Cons show ?thesis
      by (auto simp: normalized_order_bys_def FirstOrderByField_def
            found_explicit_key_order_iff)
  qed
qed

text \<open>At \<^verbatim>\<open>score > 10\<close> with no explicit order-by: score ascending, then key ascending.\<close>

theorem normalized_order_bys_computed_witness:
  "inequality_matches_first_order_by rooms_by_score \<and>
   normalized_order_bys rooms_by_score =
     Inr [OrderBy [''score''] Ascending, OrderBy KeyFieldPath Ascending]"
  using normalized_order_bys_computed [of rooms_by_score]
  by (simp add: rooms_by_score_def rooms_group_def score_gt_10_def
        inequality_matches_first_order_by_def InequalityFilterField_def
        FirstOrderByField_def KeyFieldPath_def)

text \<open>
  Claim C1 as first stated gives every query a result. The query that filters on
  \<^verbatim>\<open>score\<close> and orders by \<^verbatim>\<open>name\<close> falls in its "every other case", where the result
  would be the explicit order-by followed by the key; the assertion stops the call.
\<close>

theorem normalized_order_bys_computed_counterexample:
  "InequalityFilterField mismatched_query = Some [''score''] \<and>
   explicit_order_bys mismatched_query = [OrderBy [''name''] Ascending] \<and>
   normalized_order_bys mismatched_query = Inl FirstOrderByShouldMatchInequality \<and>
   normalized_order_bys mismatched_query \<noteq>
     Inr (explicit_order_bys mismatched_query @ [OrderBy KeyFieldPath Ascending])"
  by (simp add: mismatched_query_def rooms_group_def score_gt_10_def normalized_order_bys_def
        InequalityFilterField_def FirstOrderByField_def)

text \<open>
  Claim C2, as amended. Whenever \<^verbatim>\<open>normalized_order_bys()\<close> returns, and it does for every
  query whose inequality field and first explicit order-by field agree, the list is
  non-empty and has a clause on the document-key field; its last clause is on the key
  field exactly when no explicit clause is on the key field or the last explicit clause
  is.
\<close>

theorem normalized_order_bys_key_clause:
  "(inequality_matches_first_order_by q \<longrightarrow> (\<exists>obs. normalized_order_bys q = Inr obs)) \<and>
   (\<forall>obs. normalized_order_bys q = Inr obs \<longrightarrow>
      obs \<noteq> [] \<and> (\<exists>ob\<in>set obs. field ob = KeyFieldPath) \<and>
      (field (last obs) = KeyFieldPath \<longleftrightarrow>
         (\<not> (\<exists>ob\<in>set (explicit_order_bys q). field ob = KeyFieldPath) \<or>
          field (last (explicit_order_bys q)) = KeyFieldPath)))"
  using normalized_order_bys_returns_iff [of q] normalized_order_bys_shape [of q]
  by blast

theorem normalized_order_bys_key_clause_witness:
  "inequality_matches_first_order_by rooms_by_score \<and>
   normalized_order_bys rooms_by_score =
     Inr [OrderBy [''score''] Ascending, OrderBy KeyFieldPath Ascending] \<and>
   field (last [OrderBy [''score''] Ascending, OrderBy KeyFieldPath Ascending]) = KeyFieldPath"
proof -
  note inv = rooms_by_score_matches
  note res = rooms_by_score_normalized
  from normalized_order_bys_key_clause [of rooms_by_score] res
  have "field (last [OrderBy [''score''] Ascending, OrderBy KeyFieldPath Ascending]) =
          KeyFieldPath \<longleftrightarrow>
        (\<not> (\<exists>ob\<in>set (explicit_order_bys rooms_by_score). field ob = KeyFieldPath) \<or>
         field (last (explicit_order_bys rooms_by_score)) = KeyFieldPath)"
    by blast
  then have "field (last [OrderBy [''score''] Ascending, OrderBy KeyFieldPath Ascending]) =
          KeyFieldPath"
    by (simp add: rooms_by_score_def rooms_group_def)
  with inv res show ?thesis by simp
qed

text \<open>
  Claim C2 as first stated puts the key clause last. Two calls of \<^verbatim>\<open>AddingOrderBy\<close>, the
  key first and \<^verbatim>\<open>name\<close> second, build a query whose normalized list is the explicit one,
  ending on \<^verbatim>\<open>name\<close>.
\<close>

theorem normalized_order_bys_key_clause_counterexample:
  "AddingOrderBy rooms_group (OrderBy KeyFieldPath Ascending) =
     Inr (rooms_group\<lparr>explicit_order_bys := [OrderBy KeyFieldPath Ascending]\<rparr>) \<and>
   AddingOrderBy (rooms_group\<lparr>explicit_order_bys := [OrderBy KeyFieldPath Ascending]\<rparr>)
       (OrderBy [''name''] Ascending) = Inr key_then_name \<and>
   normalized_order_bys key_then_name =
     Inr [OrderBy KeyFieldPath Ascending, OrderBy [''name''] Ascending] \<and>
   field (last [OrderBy KeyFieldPath Ascending, OrderBy [''name''] Ascending]) \<noteq> KeyFieldPath"
  by (simp add: key_then_name_def rooms_group_def AddingOrderBy_def IsDocumentQuery_def
        normalized_order_bys_def InequalityFilterField_def FirstOrderByField_def
        IsKeyFieldPath_def KeyFieldPath_def)

text \<open>
  Claim C3. \<^verbatim>\<open>ToTarget()\<close> fails where \<^verbatim>\<open>normalized_order_bys()\<close> fails and otherwise
  returns a target with the query's path, collection group, filters and limit. For
  limit type Last its order-bys are the normalized ones with every direction inverted
  and the fields kept, its start cursor is the query's \<^verbatim>\<open>endAt\<close> and its end cursor the
  query's \<^verbatim>\<open>startAt\<close>, position and inclusive flag unchanged, absent staying absent. For
  First and None the normalized order-bys and both cursors pass through.
\<close>

theorem ToTarget_limit_to_last:
  "ToTarget q =
     (case normalized_order_bys q of
        Inl e \<Rightarrow> Inl e
      | Inr obs \<Rightarrow>
          Inr (if limit_type q = Last
               then \<lparr>t_path = path q, t_collection_group = collection_group q,
                     t_filters = filters q,
                     t_order_bys =
                       map (\<lambda>ob. OrderBy (field ob)
                                   (case direction ob of
                                      Ascending \<Rightarrow> Descending
                                    | Descending \<Rightarrow> Ascending)) obs,
                     t_limit = limit q, t_start_at = end_at q, t_end_at = start_at q\<rparr>
               else \<lparr>t_path = path q, t_collection_group = collection_group q,
                     t_filters = filters q, t_order_bys = obs,
                     t_limit = limit q, t_start_at = start_at q, t_end_at = end_at q\<rparr>))"
  by (simp add: ToTarget_def ToTarget_of_def new_order_bys_map swapped_cursor
      split: sum.splits)

theorem ToTarget_limit_to_last_witness:
  "limit_type last_three = Last \<and>
   ToTarget last_three =
     Inr \<lparr>t_path = [], t_collection_group = Some ''rooms'', t_filters = [score_gt_10],
          t_order_bys = [OrderBy [''score''] Descending, OrderBy KeyFieldPath Descending],
          t_limit = 3,
          t_start_at = Some (Bound [IntegerValue 90] False),
          t_end_at = Some (Bound [IntegerValue 20] True)\<rparr>"
  using ToTarget_limit_to_last [of last_three]
  by (simp add: last_three_normalized) (simp add: last_three_def rooms_group_def)

text \<open>
  Claim C4. The scope test of \<^verbatim>\<open>Matches\<close>, \<^verbatim>\<open>MatchesPathAndCollectionGroup\<close>, holds exactly
  when: with a collection group set, the document's key lies in a collection with that
  id and the query path is a prefix of the document's path; otherwise, with a
  document-shaped query path, the two paths are equal; otherwise the document's path is
  the query path and one more segment. A document out of scope does not match. A
  document at \<open>a/b/c\<close> is in scope of a query at \<open>a/b\<close> and not of one at \<open>a\<close>.
\<close>

theorem MatchesPathAndCollectionGroup_scope:
  "(MatchesPathAndCollectionGroup q doc \<longleftrightarrow>
      (case collection_group q of
         Some cg \<Rightarrow>
           (\<exists>parent doc_id. key_path doc = parent @ [cg, doc_id]) \<and>
           (\<exists>rest. key_path doc = path q @ rest)
       | None \<Rightarrow>
           if IsDocumentKey (path q) then key_path doc = path q
           else (\<exists>doc_id. key_path doc = path q @ [doc_id]))) \<and>
   (\<not> MatchesPathAndCollectionGroup q doc \<longrightarrow> Matches before after q doc = Inr False) \<and>
   (collection_group q = None \<longrightarrow> key_path doc = [a, b, c] \<longrightarrow>
      (path q = [a, b] \<longrightarrow> MatchesPathAndCollectionGroup q doc) \<and>
      (path q = [a] \<longrightarrow> \<not> MatchesPathAndCollectionGroup q doc))"
proof (intro conjI)
  show "MatchesPathAndCollectionGroup q doc \<longleftrightarrow>
      (case collection_group q of
         Some cg \<Rightarrow>
           (\<exists>parent doc_id. key_path doc = parent @ [cg, doc_id]) \<and>
           (\<exists>rest. key_path doc = path q @ rest)
       | None \<Rightarrow>
           if IsDocumentKey (path q) then key_path doc = path q
           else (\<exists>doc_id. key_path doc = path q @ [doc_id]))"
    by (rule scope_iff)
  show "\<not> MatchesPathAndCollectionGroup q doc \<longrightarrow> Matches before after q doc = Inr False"
    by (simp add: Matches_def)
  show "collection_group q = None \<longrightarrow> key_path doc = [a, b, c] \<longrightarrow>
      (path q = [a, b] \<longrightarrow> MatchesPathAndCollectionGroup q doc) \<and>
      (path q = [a] \<longrightarrow> \<not> MatchesPathAndCollectionGroup q doc)"
    using scope_example [of q doc a b c] by blast
qed

theorem MatchesPathAndCollectionGroup_scope_witness:
  "MatchesPathAndCollectionGroup (query_at [''a'', ''b'']) doc_abc \<and>
   \<not> MatchesPathAndCollectionGroup (query_at [''a'']) doc_abc \<and>
   Matches (\<lambda>b obs d. True) (\<lambda>b obs d. True) (query_at [''a'']) doc_abc = Inr False"
proof -
  have a: "collection_group (query_at [''a'']) = None" "path (query_at [''a'']) = [''a'']"
    and ab: "collection_group (query_at [''a'', ''b'']) = None"
      "path (query_at [''a'', ''b'']) = [''a'', ''b'']"
    and d: "key_path doc_abc = [''a'', ''b'', ''c'']"
    by (simp_all add: query_at_def doc_abc_def)
  from MatchesPathAndCollectionGroup_scope
         [of "query_at [''a'', ''b'']" doc_abc "\<lambda>b obs d. True" "\<lambda>b obs d. True"
             "''a''" "''b''" "''c''"] ab d
  have in_scope: "MatchesPathAndCollectionGroup (query_at [''a'', ''b'']) doc_abc"
    by blast
  from MatchesPathAndCollectionGroup_scope
         [of "query_at [''a'']" doc_abc "\<lambda>b obs d. True" "\<lambda>b obs d. True"
             "''a''" "''b''" "''c''"] a d
  have out: "\<not> MatchesPathAndCollectionGroup (query_at [''a'']) doc_abc"
    and "Matches (\<lambda>b obs d. True) (\<lambda>b obs d. True) (query_at [''a'']) doc_abc = Inr False"
    by blast+
  with in_scope show ?thesis by blast
qed

text \<open>
  Claim C5. \<^verbatim>\<open>MatchesOrderBy\<close> holds exactly when every normalized clause is on the key
  field or on a field path at which the document has a value, so clauses on the key
  never make it fail; and when some normalized clause is on another field at which the
  document has no value, \<^verbatim>\<open>Matches(document)\<close> is false.
\<close>

theorem Matches_needs_order_by_fields:
  "(normalized_order_bys q = Inr obs \<longrightarrow>
      MatchesOrderBy q doc =
        Inr (\<forall>ob\<in>set obs. field ob = KeyFieldPath \<or> doc_field doc (field ob) \<noteq> None)) \<and>
   (normalized_order_bys q = Inr obs \<longrightarrow>
      (\<exists>ob\<in>set obs. field ob \<noteq> KeyFieldPath \<and> doc_field doc (field ob) = None) \<longrightarrow>
      Matches before after q doc = Inr False)"
proof (intro conjI impI)
  assume "normalized_order_bys q = Inr obs"
  then show "MatchesOrderBy q doc =
        Inr (\<forall>ob\<in>set obs. field ob = KeyFieldPath \<or> doc_field doc (field ob) \<noteq> None)"
    by (simp add: MatchesOrderBy_def order_bys_present_iff)
next
  assume obs: "normalized_order_bys q = Inr obs"
    and "\<exists>ob\<in>set obs. field ob \<noteq> KeyFieldPath \<and> doc_field doc (field ob) = None"
  then have "\<not> order_bys_present obs doc"
    by (auto simp: order_bys_present_iff)
  with obs have "MatchesOrderBy q doc = Inr False"
    by (simp add: MatchesOrderBy_def)
  then show "Matches before after q doc = Inr False"
    by (simp add: Matches_def)
qed

text \<open>A room without a \<^verbatim>\<open>score\<close> does not match \<^verbatim>\<open>score > 10\<close>: the ordering field is missing.\<close>

theorem Matches_needs_order_by_fields_witness:
  "normalized_order_bys rooms_by_score =
     Inr [OrderBy [''score''] Ascending, OrderBy KeyFieldPath Ascending] \<and>
   doc_field unscored_room [''score''] = None \<and>
   MatchesPathAndCollectionGroup rooms_by_score unscored_room \<and>
   Matches (\<lambda>b obs d. True) (\<lambda>b obs d. True) rooms_by_score unscored_room = Inr False"
proof -
  note res = rooms_by_score_normalized
  have missing:
    "\<exists>ob\<in>set [OrderBy [''score''] Ascending, OrderBy KeyFieldPath Ascending].
       field ob \<noteq> KeyFieldPath \<and> doc_field unscored_room (field ob) = None"
    by (simp add: unscored_room_def KeyFieldPath_def)
  have scope: "MatchesPathAndCollectionGroup rooms_by_score unscored_room"
    by (simp add: MatchesPathAndCollectionGroup_def rooms_by_score_def rooms_group_def
          unscored_room_def HasCollectionGroup_def)
  from Matches_needs_order_by_fields
         [of rooms_by_score "[OrderBy [''score''] Ascending, OrderBy KeyFieldPath Ascending]"
             unscored_room "\<lambda>b obs d. True" "\<lambda>b obs d. True"] res missing
  have "Matches (\<lambda>b obs d. True) (\<lambda>b obs d. True) rooms_by_score unscored_room = Inr False"
    by blast
  with res scope show ?thesis by (simp add: unscored_room_def)
qed

text \<open>
  Claim C6, as amended. Whenever \<^verbatim>\<open>normalized_order_bys()\<close> returns, its list has a
  clause on the document-key field, so \<^verbatim>\<open>Comparator()\<close> never takes its own fatal
  branch and returns the comparator that walks that list. \<^verbatim>\<open>Comparator()\<close> returns a
  comparator exactly for the queries whose inequality field and first explicit order-by
  field agree; for the others the call stops at the assertion of
  \<^verbatim>\<open>normalized_order_bys()\<close>.
\<close>

theorem Comparator_key_ordering:
  "(\<forall>obs. normalized_order_bys q = Inr obs \<longrightarrow>
      has_key_ordering obs \<and> Comparator cmp q = Inr (compare_by cmp obs)) \<and>
   Comparator cmp q \<noteq> Inl ComparatorNeedsKeyOrdering \<and>
   ((\<exists>c. Comparator cmp q = Inr c) \<longleftrightarrow> inequality_matches_first_order_by q)"
proof (intro conjI allI impI)
  fix obs assume "normalized_order_bys q = Inr obs"
  then show "has_key_ordering obs" and "Comparator cmp q = Inr (compare_by cmp obs)"
    by (simp_all add: has_key_ordering_iff normalized_order_bys_shape(2) Comparator_eq)
next
  show "Comparator cmp q \<noteq> Inl ComparatorNeedsKeyOrdering"
    by (auto simp: Comparator_eq split: sum.splits dest: normalized_order_bys_fails)
next
  show "(\<exists>c. Comparator cmp q = Inr c) \<longleftrightarrow> inequality_matches_first_order_by q"
    unfolding normalized_order_bys_returns_iff [symmetric]
    by (auto simp: Comparator_eq split: sum.splits)
qed

theorem Comparator_key_ordering_witness:
  "inequality_matches_first_order_by rooms_by_score \<and>
   Comparator (\<lambda>ob d1 d2. Same) rooms_by_score =
     Inr (compare_by (\<lambda>ob d1 d2. Same)
            [OrderBy [''score''] Ascending, OrderBy KeyFieldPath Ascending])"
  using Comparator_key_ordering [of rooms_by_score "\<lambda>ob d1 d2. Same"]
    rooms_by_score_normalized rooms_by_score_matches
  by simp

text \<open>
  Claim C6 as first stated has \<^verbatim>\<open>Comparator()\<close> return a comparator for every query. For
  the query that filters on \<^verbatim>\<open>score\<close> and orders by \<^verbatim>\<open>name\<close> it returns none.
\<close>

theorem Comparator_key_ordering_counterexample:
  "Comparator (\<lambda>ob d1 d2. Same) mismatched_query = Inl FirstOrderByShouldMatchInequality"
  by (simp add: Comparator_def mismatched_query_normalized)

text \<open>
  Claim C7. \<^verbatim>\<open>CanonicalId()\<close> is the canonical id of the query's target followed by
  \<^verbatim>\<open>|lt:l\<close> for limit type Last, by \<^verbatim>\<open>|lt:f\<close> for First, and by nothing for None; it
  returns for every query whose target exists. A query with limit type First and a query
  with limit type Last never have the same canonical id, whatever else they hold.
\<close>

theorem CanonicalId_limit_type_suffix:
  "CanonicalId target_id q =
     (case ToTarget q of
        Inl e \<Rightarrow> Inl e
      | Inr t \<Rightarrow>
          Inr (target_id t @
               (case limit_type q of
                  None_lt \<Rightarrow> []
                | First \<Rightarrow> ''|lt:f''
                | Last \<Rightarrow> ''|lt:l''))) \<and>
   (inequality_matches_first_order_by q \<longrightarrow> (\<exists>s. CanonicalId target_id q = Inr s)) \<and>
   (limit_type q1 = First \<longrightarrow> limit_type q2 = Last \<longrightarrow>
    CanonicalId target_id q1 = Inr s1 \<longrightarrow> CanonicalId target_id q2 = Inr s2 \<longrightarrow> s1 \<noteq> s2)"
proof (intro conjI impI)
  show "CanonicalId target_id q =
     (case ToTarget q of
        Inl e \<Rightarrow> Inl e
      | Inr t \<Rightarrow>
          Inr (target_id t @
               (case limit_type q of
                  None_lt \<Rightarrow> []
                | First \<Rightarrow> ''|lt:f''
                | Last \<Rightarrow> ''|lt:l'')))"
    by (rule CanonicalId_eq)
next
  assume "inequality_matches_first_order_by q"
  then obtain t where "ToTarget q = Inr t"
    using ToTarget_returns_iff by blast
  then show "\<exists>s. CanonicalId target_id q = Inr s"
    by (simp add: CanonicalId_eq)
next
  assume lt: "limit_type q1 = First" "limit_type q2 = Last"
    and ids: "CanonicalId target_id q1 = Inr s1" "CanonicalId target_id q2 = Inr s2"
  from lt(1) ids(1) obtain t1 where s1: "s1 = target_id t1 @ ''|lt:f''"
    by (auto simp: CanonicalId_eq split: sum.splits)
  from lt(2) ids(2) obtain t2 where s2: "s2 = target_id t2 @ ''|lt:l''"
    by (auto simp: CanonicalId_eq split: sum.splits)
  have "last s1 = CHR ''f''" and "last s2 = CHR ''l''"
    by (simp_all add: s1 s2)
  then show "s1 \<noteq> s2" by auto
qed

theorem CanonicalId_limit_type_suffix_witness:
  "limit_type first_three = First \<and> limit_type last_three = Last \<and>
   CanonicalId (\<lambda>t. ''rooms'') first_three = Inr ''rooms|lt:f'' \<and>
   CanonicalId (\<lambda>t. ''rooms'') last_three = Inr ''rooms|lt:l'' \<and>
   ''rooms|lt:f'' \<noteq> ''rooms|lt:l''"
proof -
  have lt: "limit_type first_three = First" "limit_type last_three = Last"
    by (simp_all add: first_three_def last_three_def)
  have f: "CanonicalId (\<lambda>t. ''rooms'') first_three = Inr ''rooms|lt:f''"
    using CanonicalId_limit_type_suffix
            [of "\<lambda>t. ''rooms''" first_three first_three last_three "[]" "[]"]
    by (simp add: first_three_target lt)
  have l: "CanonicalId (\<lambda>t. ''rooms'') last_three = Inr ''rooms|lt:l''"
    using CanonicalId_limit_type_suffix
            [of "\<lambda>t. ''rooms''" last_three first_three last_three "[]" "[]"]
    by (simp add: last_three_target lt)
  from CanonicalId_limit_type_suffix
         [of "\<lambda>t. ''rooms''" first_three first_three last_three
             "''rooms|lt:f''" "''rooms|lt:l''"] lt f l
  have "''rooms|lt:f'' \<noteq> ''rooms|lt:l''" by blast
  with lt f l show ?thesis by blast
qed

text \<open>
  Claim C8. \<^verbatim>\<open>q1 == q2\<close> holds iff the limit types are equal and both queries derive the
  same target; with both targets derived, the result of \<^verbatim>\<open>==\<close> is that conjunction.
  Filters, order-bys and cursors enter only through the target: the query with no
  explicit order-by and the query ordered by key ascending are equal.
\<close>

theorem query_equal_iff:
  "(query_equal q1 q2 = Inr True \<longleftrightarrow>
      limit_type q1 = limit_type q2 \<and> (\<exists>t. ToTarget q1 = Inr t \<and> ToTarget q2 = Inr t)) \<and>
   (ToTarget q1 = Inr t1 \<longrightarrow> ToTarget q2 = Inr t2 \<longrightarrow>
      query_equal q1 q2 = Inr (limit_type q1 = limit_type q2 \<and> t1 = t2))"
  by (auto simp: query_equal_eq split: sum.splits)

theorem query_equal_iff_witness:
  "explicit_order_bys rooms_by_key \<noteq> explicit_order_bys rooms_group \<and>
   limit_type rooms_by_key = limit_type rooms_group \<and>
   ToTarget rooms_by_key = ToTarget rooms_group \<and>
   query_equal rooms_by_key rooms_group = Inr True"
proof -
  have lt: "limit_type rooms_by_key = limit_type rooms_group"
    and obs: "explicit_order_bys rooms_by_key \<noteq> explicit_order_bys rooms_group"
    by (simp_all add: rooms_by_key_def rooms_group_def)
  have same: "ToTarget rooms_by_key = ToTarget rooms_group"
    by (simp add: rooms_by_key_target rooms_group_target)
  from query_equal_iff [of rooms_by_key rooms_group] lt same rooms_group_target
  have "query_equal rooms_by_key rooms_group = Inr True" by simp
  with lt obs same show ?thesis by blast
qed

text \<open>
  Claim C9. \<^verbatim>\<open>AddingFilter(filter)\<close> fails exactly when the receiver is a document query,
  or the new filter has an inequality field that differs from the inequality field the
  receiver already has, or the new filter has an inequality field, the receiver has
  explicit order-bys, and the field of the first of them differs from it. Otherwise it
  returns the receiver with the filter appended to its filters and nothing else changed.
\<close>

theorem AddingFilter_fails_iff:
  "((\<exists>e. AddingFilter q f = Inl e) \<longleftrightarrow>
      IsDocumentQuery q \<or>
      (\<exists>n i. GetFirstInequalityField f = Some n \<and> InequalityFilterField q = Some i \<and> n \<noteq> i) \<or>
      (\<exists>n. GetFirstInequalityField f = Some n \<and> explicit_order_bys q \<noteq> [] \<and>
           field (hd (explicit_order_bys q)) \<noteq> n)) \<and>
   ((\<nexists>e. AddingFilter q f = Inl e) \<longrightarrow>
      AddingFilter q f = Inr (q\<lparr>filters := filters q @ [f]\<rparr>))"
  by (cases "explicit_order_bys q")
     (auto simp: AddingFilter_def Let_def split: if_splits)


theorem AddingFilter_fails_iff_witness:
  "\<not> IsDocumentQuery rooms_group \<and>
   AddingFilter rooms_group score_gt_10 = Inr rooms_by_score \<and>
   AddingFilter rooms_by_name score_gt_10 = Inl FilterFirstOrderByMustMatch"
proof -
  have ok: "\<nexists>e. AddingFilter rooms_group score_gt_10 = Inl e"
    using AddingFilter_fails_iff [of rooms_group score_gt_10]
    by (simp add: rooms_group_def IsDocumentQuery_def InequalityFilterField_def)
  with AddingFilter_fails_iff [of rooms_group score_gt_10]
  have "AddingFilter rooms_group score_gt_10 = Inr (rooms_group\<lparr>filters := filters rooms_group @ [score_gt_10]\<rparr>)"
    by blast
  then have a: "AddingFilter rooms_group score_gt_10 = Inr rooms_by_score"
    by (simp add: rooms_by_score_def rooms_group_def)
  have b: "AddingFilter rooms_by_name score_gt_10 = Inl FilterFirstOrderByMustMatch"
    by (simp add: AddingFilter_def rooms_by_name_def rooms_group_def score_gt_10_def
          IsDocumentQuery_def InequalityFilterField_def)
  have "\<not> IsDocumentQuery rooms_group" by (simp add: IsDocumentQuery_def rooms_group_def)
  with a b show ?thesis by blast
qed

text \<open>
  Claim C10, as amended. Let \<open>q\<close> be a query that is not a document query, has no
  explicit order-by on the key field, has explicit order-bys or else no inequality field
  other than the key field, and whose inequality field and first explicit order-by field
  agree. Then \<^verbatim>\<open>AddingOrderBy\<close> of the key clause, in the direction of the last explicit
  clause (Ascending when there is none), returns a query with the same normalized
  order-bys, and that query \<^verbatim>\<open>==\<close> \<open>q\<close>.
\<close>

theorem AddingOrderBy_key_equal:
  assumes "\<not> IsDocumentQuery q"
    and "\<not> (\<exists>ob\<in>set (explicit_order_bys q). field ob = KeyFieldPath)"
    and "explicit_order_bys q \<noteq> [] \<or> InequalityFilterField q = None \<or>
         InequalityFilterField q = Some KeyFieldPath"
    and "inequality_matches_first_order_by q"
    and "d = (if explicit_order_bys q = [] then Ascending
              else direction (last (explicit_order_bys q)))"
  shows "\<exists>q'. AddingOrderBy q (OrderBy KeyFieldPath d) = Inr q' \<and>
              normalized_order_bys q' = normalized_order_bys q \<and>
              query_equal q' q = Inr True"
proof -
  let ?q' = "q\<lparr>explicit_order_bys := explicit_order_bys q @ [OrderBy KeyFieldPath d]\<rparr>"
  have add: "AddingOrderBy q (OrderBy KeyFieldPath d) = Inr ?q'"
    using assms(1,3) by (auto simp: AddingOrderBy_def)
  have norm: "normalized_order_bys ?q' = normalized_order_bys q"
    using assms(2,3,5) by (rule AddingOrderBy_key_normalized)
  from assms(4) obtain obs where obs: "normalized_order_bys q = Inr obs"
    using normalized_order_bys_returns_iff by blast
  have "ToTarget ?q' = ToTarget q"
    by (simp add: ToTarget_def norm obs ToTarget_of_explicit_order_bys)
  moreover have "ToTarget q = Inr (ToTarget_of q obs)"
    by (simp add: ToTarget_def obs)
  ultimately have "query_equal ?q' q = Inr True"
    by (simp add: query_equal_def)
  with add norm show ?thesis by blast
qed

theorem AddingOrderBy_key_equal_witness:
  "\<not> IsDocumentQuery rooms_by_name \<and>
   inequality_matches_first_order_by rooms_by_name \<and>
   AddingOrderBy rooms_by_name (OrderBy KeyFieldPath Descending) =
     Inr (rooms_by_name\<lparr>explicit_order_bys :=
            [OrderBy [''name''] Descending, OrderBy KeyFieldPath Descending]\<rparr>) \<and>
   query_equal
     (rooms_by_name\<lparr>explicit_order_bys :=
        [OrderBy [''name''] Descending, OrderBy KeyFieldPath Descending]\<rparr>)
     rooms_by_name = Inr True"
proof -
  have h1: "\<not> IsDocumentQuery rooms_by_name"
    by (simp add: IsDocumentQuery_def rooms_by_name_def rooms_group_def)
  have h2: "\<not> (\<exists>ob\<in>set (explicit_order_bys rooms_by_name). field ob = KeyFieldPath)"
    by (simp add: rooms_by_name_def rooms_group_def KeyFieldPath_def)
  have h3: "explicit_order_bys rooms_by_name \<noteq> [] \<or>
            InequalityFilterField rooms_by_name = None \<or>
            InequalityFilterField rooms_by_name = Some KeyFieldPath"
    by (simp add: rooms_by_name_def rooms_group_def)
  have h4: "inequality_matches_first_order_by rooms_by_name"
    by (simp add: inequality_matches_first_order_by_def InequalityFilterField_def
          rooms_by_name_def rooms_group_def)
  have h5: "Descending = (if explicit_order_bys rooms_by_name = [] then Ascending
              else direction (last (explicit_order_bys rooms_by_name)))"
    by (simp add: rooms_by_name_def rooms_group_def)
  from AddingOrderBy_key_equal [OF h1 h2 h3 h4 h5]
  obtain q' where add: "AddingOrderBy rooms_by_name (OrderBy KeyFieldPath Descending) = Inr q'"
    and eq: "query_equal q' rooms_by_name = Inr True"
    by blast
  have "AddingOrderBy rooms_by_name (OrderBy KeyFieldPath Descending) =
     Inr (rooms_by_name\<lparr>explicit_order_bys :=
            [OrderBy [''name''] Descending, OrderBy KeyFieldPath Descending]\<rparr>)"
    by (simp add: AddingOrderBy_def h1) (simp add: rooms_by_name_def rooms_group_def)
  with add eq h1 h4 show ?thesis by simp
qed

text \<open>
  Claim C10 as first stated covers the query that filters on \<^verbatim>\<open>score\<close> and orders by
  \<^verbatim>\<open>name\<close>: it is no document query, has an explicit order-by and none on the key.
  \<^verbatim>\<open>AddingOrderBy\<close> of the key clause returns, and comparing the result with the query
  stops at the assertion of \<^verbatim>\<open>normalized_order_bys()\<close>.
\<close>

theorem AddingOrderBy_key_equal_counterexample:
  "\<not> IsDocumentQuery mismatched_query \<and>
   explicit_order_bys mismatched_query = [OrderBy [''name''] Ascending] \<and>
   AddingOrderBy mismatched_query (OrderBy KeyFieldPath Ascending) =
     Inr (mismatched_query\<lparr>explicit_order_bys :=
            [OrderBy [''name''] Ascending, OrderBy KeyFieldPath Ascending]\<rparr>) \<and>
   query_equal
     (mismatched_query\<lparr>explicit_order_bys :=
        [OrderBy [''name''] Ascending, OrderBy KeyFieldPath Ascending]\<rparr>)
     mismatched_query = Inl FirstOrderByShouldMatchInequality"
  by (simp add: mismatched_query_def rooms_group_def score_gt_10_def IsDocumentQuery_def
        AddingOrderBy_def query_equal_def ToTarget_def normalized_order_bys_def
        InequalityFilterField_def FirstOrderByField_def)


end
